theory Spec2Isabelle
  imports Complex_Main "HOL-Library.Multiset"
begin

section \<open>SecurePass-Analyzer: strings, regular expressions and numbers of the Python source\<close>

text \<open>
  A Python \<open>str\<close> is modelled as a HOL \<open>string\<close>: a list of characters, each
  character standing for one code point below 256, so that \<open>len\<close> is \<open>length\<close>.
  Python floats are idealised as reals. Exceptions are values of type \<open>error\<close>;
  a function that can raise returns \<open>error + 'a\<close> with \<open>Inl\<close> the exception.
\<close>

datatype error = ValueError string | IndexError string

subsection \<open>The part of the \<open>re\<close> module the analyzer uses\<close>

text \<open>
  A compiled pattern is modelled by its matcher: applied to an input it returns the
  remainders left by every way of matching a prefix of the input. \<open>re.search\<close> tries
  every start position; only the truth value of its result is used by the source.
\<close>

type_synonym regex = "string \<Rightarrow> string list"

definition re_class :: "(char \<Rightarrow> bool) \<Rightarrow> regex" where
  "re_class P s = (case s of [] \<Rightarrow> [] | c # cs \<Rightarrow> if P c then [cs] else [])"

definition re_lit :: "string \<Rightarrow> regex" where
  "re_lit w s = (if take (length w) s = w then [drop (length w) s] else [])"

definition re_seq :: "regex \<Rightarrow> regex \<Rightarrow> regex" where
  "re_seq a b s = concat (map b (a s))"

definition re_alts :: "regex list \<Rightarrow> regex" where
  "re_alts rs s = concat (map (\<lambda>r. r s) rs)"

fun re_times :: "nat \<Rightarrow> regex \<Rightarrow> regex" where
  "re_times 0 r s = [s]"
| "re_times (Suc n) r s = concat (map (re_times n r) (r s))"

definition re_between :: "nat \<Rightarrow> nat \<Rightarrow> regex \<Rightarrow> regex" where
  "re_between lo hi r s = concat (map (\<lambda>n. re_times n r s) [lo..<Suc hi])"

definition re_at_least :: "nat \<Rightarrow> regex \<Rightarrow> regex" where
  "re_at_least lo r s = concat (map (\<lambda>n. re_times n r s) [lo..<Suc (length s)])"

fun tails :: "string \<Rightarrow> string list" where
  "tails [] = [[]]"
| "tails (c # cs) = (c # cs) # tails cs"

definition re_search :: "regex \<Rightarrow> string \<Rightarrow> bool" where
  "re_search r s = list_ex (\<lambda>t. r t \<noteq> []) (tails s)"

definition in_range :: "char \<Rightarrow> char \<Rightarrow> char \<Rightarrow> bool" where
  "in_range lo hi c = ((of_char lo :: nat) \<le> of_char c \<and> (of_char c :: nat) \<le> of_char hi)"

text \<open>\<open>\d\<close>: among the code points below 256 the decimal digits are \<open>0\<close> to \<open>9\<close>.\<close>

definition re_digit :: regex where
  "re_digit = re_class (in_range (CHR ''0'') (CHR ''9''))"

text \<open>\<open>(.)\1{2,}\<close>: a character other than the newline, then the same character at
  least twice more.\<close>

definition re_repeated :: regex where
  "re_repeated s =
     (case s of [] \<Rightarrow> []
      | c # cs \<Rightarrow> if c = CHR 0x0A then [] else re_at_least 2 (re_class (\<lambda>x. x = c)) cs)"

subsection \<open>String methods\<close>

text \<open>\<open>str.lower\<close> on code points below 256: the ASCII capitals and the Latin-1
  capitals (\<open>0xC0\<close> to \<open>0xDE\<close> but the multiplication sign) move up by 32.\<close>

definition lower_char :: "char \<Rightarrow> char" where
  "lower_char c =
     (let n = (of_char c :: nat)
      in if (65 \<le> n \<and> n \<le> 90) \<or> (192 \<le> n \<and> n \<le> 222 \<and> n \<noteq> 215)
         then char_of (n + 32) else c)"

definition lower :: "string \<Rightarrow> string" where
  "lower s = map lower_char s"

text \<open>\<open>pattern in s\<close> for strings.\<close>

definition contains :: "string \<Rightarrow> string \<Rightarrow> bool" where
  "contains s pattern = list_ex (\<lambda>t. take (length pattern) t = pattern) (tails s)"

subsection \<open>Numbers\<close>

text \<open>\<open>math.log2\<close> raises on a non-positive argument.\<close>

definition log2 :: "int \<Rightarrow> error + real" where
  "log2 x = (if x \<le> 0 then Inl (ValueError ''math domain error'') else Inr (log 2 (real_of_int x)))"

text \<open>\<open>round(x, 2)\<close>: to the nearest hundredth, a tie to the even one.\<close>

definition round2 :: "real \<Rightarrow> real" where
  "round2 x =
     (let y = x * 100; f = \<lfloor>y\<rfloor>; d = y - of_int f
      in of_int (if d < 1 / 2 then f else if 1 / 2 < d then f + 1
                 else if even f then f else f + 1) / 100)"

text \<open>\<open>int(x)\<close> of a float truncates towards zero.\<close>

definition py_int :: "real \<Rightarrow> int" where
  "py_int x = (if 0 \<le> x then \<lfloor>x\<rfloor> else \<lceil>x\<rceil>)"

section \<open>password\_analyzer.py\<close>

subsection \<open>Data\<close>

record pattern_findings =
  sequential_numbers :: bool
  sequential_letters :: bool
  repeated_characters :: bool
  keyboard_pattern :: bool
  common_word :: bool
  date_pattern :: bool

record character_diversity =
  has_lowercase :: bool
  has_uppercase :: bool
  has_numbers :: bool
  has_symbols :: bool
  has_spaces :: bool

text \<open>
  The result of the third-party estimator \<open>zxcvbn.zxcvbn\<close>, with the keys the analyzer
  reads. The estimator itself is not part of the repository: every function that calls
  it takes it as a parameter of type \<open>string \<Rightarrow> error + zxcvbn_result\<close>, \<open>Inl\<close> when
  the estimator raises.
\<close>

record crack_times_display =
  offline_slow_hashing_1e4_per_second :: string
  offline_fast_hashing_1e10_per_second :: string
  online_throttling_100_per_hour :: string
  online_no_throttling_10_per_second :: string

record zxcvbn_feedback =
  fb_warning :: "string option"
  fb_suggestions :: "string list option"

record zxcvbn_result =
  zx_score :: int
  zx_crack_times_display :: crack_times_display
  zx_feedback :: "zxcvbn_feedback option"

record crack_time_estimates_t =
  offline_slow :: string
  offline_fast :: string
  online_throttled :: string
  online_unthrottled :: string

record analysis_report =
  password_length :: nat
  score :: int
  strength :: string
  entropy_bits :: real
  patterns_found :: pattern_findings
  character_diversity :: character_diversity
  crack_time_estimates :: crack_time_estimates_t
  recommendations :: "string list"
  zxcvbn_score :: int
  warning :: string
  suggestions :: "string list"

subsection \<open>Constants of \<open>PasswordAnalyzer.__init__\<close>\<close>

definition common_passwords :: "string list" where
  "common_passwords =
     [''password'', ''123456'', ''password123'', ''admin'', ''letmein'',
      ''welcome'', ''monkey'', ''1234567890'', ''qwerty'', ''abc123'',
      ''Password1'', ''password1'', ''123456789'', ''welcome123'']"

definition keyboard_patterns :: "string list" where
  "keyboard_patterns =
     [''qwerty'', ''asdf'', ''zxcv'', ''1234'', ''0987'',
      ''qwertyuiop'', ''asdfghjkl'', ''zxcvbnm'']"

subsection \<open>The patterns of the source\<close>

definition re_lowercase :: regex where
  "re_lowercase = re_class (in_range (CHR ''a'') (CHR ''z''))"

definition re_uppercase :: regex where
  "re_uppercase = re_class (in_range (CHR ''A'') (CHR ''Z''))"

definition re_number :: regex where
  "re_number = re_class (in_range (CHR ''0'') (CHR ''9''))"

definition symbol_class :: string where
  "symbol_class =
     ''!@#$%^&*()_+-=[]{};:'' @ [CHR 0x27, CHR 0x22] @ '',.<>?/'' @ [CHR 0x5C] @ ''|'' @ [CHR 0x60] @ ''~''"

definition re_symbol :: regex where
  "re_symbol = re_class (\<lambda>c. c \<in> set symbol_class)"

definition re_sequential_numbers :: regex where
  "re_sequential_numbers =
     re_alts (map re_lit [''012'', ''123'', ''234'', ''345'', ''456'', ''567'', ''678'', ''789'', ''890''])"

definition re_sequential_letters :: regex where
  "re_sequential_letters =
     re_alts (map re_lit
       [''abc'', ''bcd'', ''cde'', ''def'', ''efg'', ''fgh'', ''ghi'', ''hij'', ''ijk'', ''jkl'',
        ''klm'', ''lmn'', ''mno'', ''nop'', ''opq'', ''pqr'', ''qrs'', ''rst'', ''stu'', ''tuv'',
        ''uvw'', ''vwx'', ''wxy'', ''xyz''])"

definition re_separator :: regex where
  "re_separator = re_class (\<lambda>c. c = CHR ''-'' \<or> c = CHR ''/'')"

definition re_date :: regex where
  "re_date =
     re_alts
       [re_seq (re_between 2 4 re_digit)
          (re_seq re_separator
             (re_seq (re_times 2 re_digit)
                (re_seq re_separator (re_between 2 4 re_digit)))),
        re_between 6 8 re_digit]"

subsection \<open>\<open>calculate_entropy\<close>\<close>

definition calculate_entropy :: "string \<Rightarrow> error + real" where
  "calculate_entropy password =
     (let charset_size = (0::int);
          charset_size = (if re_search re_lowercase password then charset_size + 26 else charset_size);
          charset_size = (if re_search re_uppercase password then charset_size + 26 else charset_size);
          charset_size = (if re_search re_number password then charset_size + 10 else charset_size);
          charset_size = (if re_search re_symbol password then charset_size + 32 else charset_size)
      in if charset_size = 0 then Inr 0
         else (case log2 charset_size of
                 Inl e \<Rightarrow> Inl e
               | Inr l \<Rightarrow> Inr (round2 (real (length password) * l))))"

subsection \<open>\<open>check_patterns\<close> and \<open>get_character_diversity\<close>\<close>

definition check_patterns :: "string \<Rightarrow> pattern_findings" where
  "check_patterns password =
     \<lparr>sequential_numbers = re_search re_sequential_numbers (lower password),
      sequential_letters = re_search re_sequential_letters (lower password),
      repeated_characters = re_search re_repeated password,
      keyboard_pattern = list_ex (\<lambda>pattern. contains (lower password) pattern) keyboard_patterns,
      common_word = (lower password \<in> set common_passwords),
      date_pattern = re_search re_date password\<rparr>"

definition get_character_diversity :: "string \<Rightarrow> character_diversity" where
  "get_character_diversity password =
     \<lparr>has_lowercase = re_search re_lowercase password,
      has_uppercase = re_search re_uppercase password,
      has_numbers = re_search re_number password,
      has_symbols = re_search re_symbol password,
      has_spaces = contains password '' ''\<rparr>"

text \<open>The two dictionaries as the source iterates over them.\<close>

definition diversity_values :: "character_diversity \<Rightarrow> bool list" where
  "diversity_values d =
     [has_lowercase d, has_uppercase d, has_numbers d, has_symbols d, has_spaces d]"

definition patterns_items :: "pattern_findings \<Rightarrow> (string \<times> bool) list" where
  "patterns_items p =
     [(''sequential_numbers'', sequential_numbers p),
      (''sequential_letters'', sequential_letters p),
      (''repeated_characters'', repeated_characters p),
      (''keyboard_pattern'', keyboard_pattern p),
      (''common_word'', common_word p),
      (''date_pattern'', date_pattern p)]"

definition penalties :: "(string \<times> int) list" where
  "penalties =
     [(''sequential_numbers'', -5),
      (''sequential_letters'', -5),
      (''repeated_characters'', -10),
      (''keyboard_pattern'', -10),
      (''common_word'', -20),
      (''date_pattern'', -5)]"

definition penalties_get :: "string \<Rightarrow> int \<Rightarrow> int" where
  "penalties_get k d = (case map_of penalties k of None \<Rightarrow> d | Some v \<Rightarrow> v)"

subsection \<open>\<open>calculate_score\<close>\<close>

definition strength_of :: "int \<Rightarrow> string" where
  "strength_of n =
     (if n \<ge> 80 then ''Very Strong''
      else if n \<ge> 60 then ''Strong''
      else if n \<ge> 40 then ''Moderate''
      else if n \<ge> 20 then ''Weak''
      else ''Very Weak'')"

definition calculate_score ::
  "(string \<Rightarrow> error + zxcvbn_result) \<Rightarrow> string \<Rightarrow> error + (int \<times> string)" where
  "calculate_score zxcvbn password =
     (if password = [] then Inr (0, ''Empty'')
      else
        let score = (0::int);
            len = int (length password);
            score = (if len \<ge> 16 then score + 30
                     else if len \<ge> 12 then score + 25
                     else if len \<ge> 8 then score + 15
                     else score + max 0 (len * 2))
        in case calculate_entropy password of
             Inl e \<Rightarrow> Inl e
           | Inr entropy \<Rightarrow>
               let score = (if entropy \<ge> 60 then score + 30
                            else if entropy \<ge> 40 then score + 20
                            else if entropy \<ge> 25 then score + 10
                            else score + max 0 (py_int (entropy / 2)));
                   diversity = get_character_diversity password;
                   score = score + sum_list (map (\<lambda>v. 5) (filter (\<lambda>v. v) (diversity_values diversity)));
                   patterns = check_patterns password;
                   score = fold (\<lambda>(pattern, has_pattern) sc.
                                   if has_pattern then sc + penalties_get pattern 0 else sc)
                                (patterns_items patterns) score
               in case zxcvbn password of
                    Inl e \<Rightarrow> Inl e
                  | Inr zxcvbn_result \<Rightarrow>
                      let score = score + zx_score zxcvbn_result * 4;
                          score = max 0 (min 100 score)
                      in Inr (score, strength_of score))"

subsection \<open>\<open>generate_recommendations\<close>\<close>

definition generate_recommendations ::
  "string \<Rightarrow> pattern_findings \<Rightarrow> character_diversity \<Rightarrow> string list" where
  "generate_recommendations password patterns diversity =
     (let recommendations = [];
          recommendations = (if length password < 12
             then recommendations @ [''Increase password length to at least 12 characters'']
             else recommendations);
          recommendations = (if \<not> has_uppercase diversity
             then recommendations @ [''Add uppercase letters''] else recommendations);
          recommendations = (if \<not> has_lowercase diversity
             then recommendations @ [''Add lowercase letters''] else recommendations);
          recommendations = (if \<not> has_numbers diversity
             then recommendations @ [''Include numbers''] else recommendations);
          recommendations = (if \<not> has_symbols diversity
             then recommendations @ [''Add special symbols (!@#$%^&*)''] else recommendations);
          recommendations = (if sequential_numbers patterns
             then recommendations @ [''Avoid sequential numbers (123, 456)''] else recommendations);
          recommendations = (if sequential_letters patterns
             then recommendations @ [''Avoid sequential letters (abc, xyz)''] else recommendations);
          recommendations = (if repeated_characters patterns
             then recommendations @ [''Avoid repeating the same character multiple times'']
             else recommendations);
          recommendations = (if keyboard_pattern patterns
             then recommendations @ [''Avoid keyboard patterns (qwerty, asdf)''] else recommendations);
          recommendations = (if common_word patterns
             then recommendations @ [''This password is too common - choose something unique'']
             else recommendations);
          recommendations = (if date_pattern patterns
             then recommendations @ [''Avoid using dates as they'' @ [CHR 0x27] @ ''re easy to guess'']
             else recommendations)
      in if recommendations = []
         then recommendations @
              [''Great password! Consider using a password manager to store it securely.'']
         else recommendations)"

subsection \<open>\<open>analyze\<close>\<close>

definition analyze ::
  "(string \<Rightarrow> error + zxcvbn_result) \<Rightarrow> string \<Rightarrow> error + analysis_report" where
  "analyze zxcvbn password =
     (case calculate_score zxcvbn password of
        Inl e \<Rightarrow> Inl e
      | Inr (score', strength') \<Rightarrow>
          let patterns = check_patterns password;
              diversity = get_character_diversity password
          in case calculate_entropy password of
               Inl e \<Rightarrow> Inl e
             | Inr entropy \<Rightarrow>
                 (case zxcvbn password of
                    Inl e \<Rightarrow> Inl e
                  | Inr zxcvbn_result \<Rightarrow>
                      let display = zx_crack_times_display zxcvbn_result;
                          crack_times =
                            \<lparr>offline_slow = offline_slow_hashing_1e4_per_second display,
                             offline_fast = offline_fast_hashing_1e10_per_second display,
                             online_throttled = online_throttling_100_per_hour display,
                             online_unthrottled = online_no_throttling_10_per_second display\<rparr>;
                          recommendations = generate_recommendations password patterns diversity;
                          feedback = (case zx_feedback zxcvbn_result of
                                        None \<Rightarrow> \<lparr>fb_warning = None, fb_suggestions = None\<rparr>
                                      | Some fb \<Rightarrow> fb)
                      in Inr \<lparr>password_length = length password,
                              score = score',
                              strength = strength',
                              entropy_bits = entropy,
                              patterns_found = patterns,
                              character_diversity = diversity,
                              crack_time_estimates = crack_times,
                              recommendations = recommendations,
                              zxcvbn_score = zx_score zxcvbn_result,
                              warning = (case fb_warning feedback of None \<Rightarrow> [] | Some w \<Rightarrow> w),
                              suggestions = (case fb_suggestions feedback of None \<Rightarrow> [] | Some l \<Rightarrow> l)\<rparr>))"

section \<open>password\_generator.py\<close>

subsection \<open>The two generators the module draws from\<close>

text \<open>
  The module imports both \<open>secrets\<close> (the operating system's secure source) and
  \<open>random\<close> (the Mersenne Twister, a general-purpose generator). Each is modelled by
  the infinite sequence of numbers it is going to supply and the count of draws made so
  far; a draw below \<open>n\<close> reduces the next number modulo \<open>n\<close>, so every outcome of
  the real generator is the outcome of some sequence.
\<close>

record rng_state =
  secrets_seq :: "nat \<Rightarrow> nat"
  secrets_used :: nat
  random_seq :: "nat \<Rightarrow> nat"
  random_used :: nat

definition secrets_randbelow :: "nat \<Rightarrow> rng_state \<Rightarrow> nat \<times> rng_state" where
  "secrets_randbelow n g =
     (secrets_seq g (secrets_used g) mod n, g\<lparr>secrets_used := Suc (secrets_used g)\<rparr>)"

text \<open>\<open>secrets.choice\<close> raises \<open>IndexError\<close> on an empty sequence.\<close>

definition secrets_choice :: "'a list \<Rightarrow> rng_state \<Rightarrow> error + ('a \<times> rng_state)" where
  "secrets_choice seq g =
     (if seq = [] then Inl (IndexError ''Cannot choose from an empty sequence'')
      else (case secrets_randbelow (length seq) g of (i, g') \<Rightarrow> Inr (seq ! i, g')))"

definition random_randbelow :: "nat \<Rightarrow> rng_state \<Rightarrow> nat \<times> rng_state" where
  "random_randbelow n g =
     (random_seq g (random_used g) mod n, g\<lparr>random_used := Suc (random_used g)\<rparr>)"

text \<open>
  \<open>random.shuffle\<close> of the standard library:
  \<^verbatim>\<open>for i in reversed(range(1, len(x))): j = randbelow(i + 1); x[i], x[j] = x[j], x[i]\<close>.
  \<open>shuffle_loop i\<close> runs the iterations \<open>i\<close>, \<open>i - 1\<close>, ..., \<open>1\<close>.
\<close>

fun shuffle_loop :: "nat \<Rightarrow> 'a list \<Rightarrow> rng_state \<Rightarrow> 'a list \<times> rng_state" where
  "shuffle_loop 0 x g = (x, g)"
| "shuffle_loop (Suc k) x g =
     (case random_randbelow (Suc k + 1) g of
        (j, g') \<Rightarrow> shuffle_loop k (x[Suc k := x ! j, j := x ! Suc k]) g')"

definition random_shuffle :: "'a list \<Rightarrow> rng_state \<Rightarrow> 'a list \<times> rng_state" where
  "random_shuffle x g = shuffle_loop (length x - 1) x g"

subsection \<open>Constants of \<open>PasswordGenerator.__init__\<close>\<close>

definition lowercase :: string where
  "lowercase = ''abcdefghijklmnopqrstuvwxyz''"

definition uppercase :: string where
  "uppercase = ''ABCDEFGHIJKLMNOPQRSTUVWXYZ''"

definition digits :: string where
  "digits = ''0123456789''"

definition symbols :: string where
  "symbols = ''!@#$%^&*()_+-=[]{}|;:,.<>?''"

subsection \<open>\<open>generate_random\<close>\<close>

text \<open>\<open>s.replace(c, '')\<close> for a one-character \<open>c\<close>.\<close>

definition str_remove :: "char \<Rightarrow> string \<Rightarrow> string" where
  "str_remove c s = filter (\<lambda>x. x \<noteq> c) s"

text \<open>
  One \<open>if use_...:\<close> block, given the class \<open>chars\<close> it has computed:
  \<^verbatim>\<open>char_pool += chars; required_chars.append(secrets.choice(chars))\<close>.
\<close>

definition add_class ::
  "string \<Rightarrow> string \<times> char list \<times> rng_state \<Rightarrow> error + (string \<times> char list \<times> rng_state)" where
  "add_class chars st =
     (case st of (char_pool, required_chars, g) \<Rightarrow>
        (case secrets_choice chars g of
           Inl e \<Rightarrow> Inl e
         | Inr (c, g') \<Rightarrow> Inr (char_pool @ chars, required_chars @ [c], g')))"

text \<open>\<^verbatim>\<open>for _ in range(remaining_length): password.append(secrets.choice(char_pool))\<close>\<close>

fun fill :: "nat \<Rightarrow> string \<Rightarrow> char list \<Rightarrow> rng_state \<Rightarrow> error + (char list \<times> rng_state)" where
  "fill 0 char_pool password g = Inr (password, g)"
| "fill (Suc n) char_pool password g =
     (case secrets_choice char_pool g of
        Inl e \<Rightarrow> Inl e
      | Inr (c, g') \<Rightarrow> fill n char_pool (password @ [c]) g')"

definition generate_random ::
  "int \<Rightarrow> bool \<Rightarrow> bool \<Rightarrow> bool \<Rightarrow> bool \<Rightarrow> bool \<Rightarrow> string \<Rightarrow> rng_state
     \<Rightarrow> error + (string \<times> rng_state)" where
  "generate_random len use_lowercase use_uppercase use_digits use_symbols
                   exclude_ambiguous exclude_chars g =
     (if len < 4 then Inl (ValueError ''Password length must be at least 4 characters'')
      else
        case (if use_lowercase
              then add_class (if exclude_ambiguous
                              then str_remove (CHR ''o'') (str_remove (CHR ''l'') lowercase)
                              else lowercase) ([], [], g)
              else Inr ([], [], g)) of
          Inl e \<Rightarrow> Inl e
        | Inr st1 \<Rightarrow>
        case (if use_uppercase
              then add_class (if exclude_ambiguous
                              then str_remove (CHR ''I'') (str_remove (CHR ''O'') uppercase)
                              else uppercase) st1
              else Inr st1) of
          Inl e \<Rightarrow> Inl e
        | Inr st2 \<Rightarrow>
        case (if use_digits
              then add_class (if exclude_ambiguous
                              then str_remove (CHR ''1'') (str_remove (CHR ''0'') digits)
                              else digits) st2
              else Inr st2) of
          Inl e \<Rightarrow> Inl e
        | Inr st3 \<Rightarrow>
        case (if use_symbols then add_class symbols st3 else Inr st3) of
          Inl e \<Rightarrow> Inl e
        | Inr (char_pool, required_chars, g4) \<Rightarrow>
            let char_pool = fold str_remove exclude_chars char_pool
            in if char_pool = []
               then Inl (ValueError ''No characters available with the specified criteria'')
               else
                 let password = required_chars;
                     remaining_length = len - int (length password)
                 in case fill (nat remaining_length) char_pool password g4 of
                      Inl e \<Rightarrow> Inl e
                    | Inr (password, g5) \<Rightarrow> Inr (random_shuffle password g5))"

subsection \<open>\<open>generate_custom_pattern\<close>\<close>

fun custom_pattern_loop ::
  "string \<Rightarrow> string \<Rightarrow> rng_state \<Rightarrow> error + (string \<times> rng_state)" where
  "custom_pattern_loop [] password g = Inr (password, g)"
| "custom_pattern_loop (char # rest) password g =
     (case (if char = CHR ''l'' then secrets_choice lowercase g
            else if char = CHR ''L'' then secrets_choice uppercase g
            else if char = CHR ''d'' then secrets_choice digits g
            else if char = CHR ''s'' then secrets_choice symbols g
            else if char = CHR ''a'' then secrets_choice (lowercase @ uppercase @ digits) g
            else if char = CHR ''*'' then secrets_choice (lowercase @ uppercase @ digits @ symbols) g
            else Inr (char, g)) of
        Inl e \<Rightarrow> Inl e
      | Inr (c, g') \<Rightarrow> custom_pattern_loop rest (password @ [c]) g')"

definition generate_custom_pattern :: "string \<Rightarrow> rng_state \<Rightarrow> error + (string \<times> rng_state)" where
  "generate_custom_pattern pattern g = custom_pattern_loop pattern [] g"

section \<open>The specification's words, and inputs for worked examples\<close>

text \<open>
  The five strength labels of the specification and the strings the source prints for
  them.
\<close>

datatype label = Very_Weak | Weak | Moderate | Strong | Very_Strong

definition label_text :: "label \<Rightarrow> string" where
  "label_text l =
     (case l of Very_Weak \<Rightarrow> ''Very Weak'' | Weak \<Rightarrow> ''Weak'' | Moderate \<Rightarrow> ''Moderate''
      | Strong \<Rightarrow> ''Strong'' | Very_Strong \<Rightarrow> ''Very Strong'')"

text \<open>The scoring pipeline as section 4.4 of the specification words it.\<close>

definition spec_length_component :: "nat \<Rightarrow> int" where
  "spec_length_component n =
     (if n \<ge> 16 then 30 else if n \<ge> 12 then 25 else if n \<ge> 8 then 15 else min 14 (2 * int n))"

definition spec_entropy_component :: "real \<Rightarrow> int" where
  "spec_entropy_component e =
     (if e \<ge> 60 then 30 else if e \<ge> 40 then 20 else if e \<ge> 25 then 10 else \<lfloor>e / 2\<rfloor>)"

definition spec_diversity_component :: "character_diversity \<Rightarrow> int" where
  "spec_diversity_component d =
     (if has_lowercase d then 5 else 0) + (if has_uppercase d then 5 else 0) +
     (if has_numbers d then 5 else 0) + (if has_symbols d then 5 else 0) +
     (if has_spaces d then 5 else 0)"

definition spec_pattern_penalties :: "pattern_findings \<Rightarrow> int" where
  "spec_pattern_penalties p =
     (if sequential_numbers p then -5 else 0) + (if sequential_letters p then -5 else 0) +
     (if repeated_characters p then -10 else 0) + (if keyboard_pattern p then -10 else 0) +
     (if common_word p then -20 else 0) + (if date_pattern p then -5 else 0)"

definition spec_score ::
  "nat \<Rightarrow> real \<Rightarrow> character_diversity \<Rightarrow> pattern_findings \<Rightarrow> int \<Rightarrow> int" where
  "spec_score n e d p z =
     max 0 (min 100 (spec_length_component n + spec_entropy_component e +
                     spec_diversity_component d + spec_pattern_penalties p + 4 * z))"

definition spec_label :: "int \<Rightarrow> label" where
  "spec_label s =
     (if s \<ge> 80 then Very_Strong else if s \<ge> 60 then Strong else if s \<ge> 40 then Moderate
      else if s \<ge> 20 then Weak else Very_Weak)"

text \<open>
  The selection pool of the Random strategy as section 4.6 words it: the union of the
  selected classes, minus the ambiguous and the excluded characters.
\<close>

definition selection_pool :: "bool \<Rightarrow> bool \<Rightarrow> bool \<Rightarrow> bool \<Rightarrow> bool \<Rightarrow> string \<Rightarrow> string" where
  "selection_pool use_lowercase use_uppercase use_digits use_symbols exclude_ambiguous exclude_chars =
     filter (\<lambda>c. c \<notin> set exclude_chars)
       ((if use_lowercase
         then filter (\<lambda>c. \<not> (exclude_ambiguous \<and> c \<in> {CHR ''l'', CHR ''o''})) lowercase else []) @
        (if use_uppercase
         then filter (\<lambda>c. \<not> (exclude_ambiguous \<and> c \<in> {CHR ''O'', CHR ''I''})) uppercase else []) @
        (if use_digits
         then filter (\<lambda>c. \<not> (exclude_ambiguous \<and> c \<in> {CHR ''0'', CHR ''1''})) digits else []) @
        (if use_symbols then symbols else []))"

text \<open>The substitution map of the Custom Pattern strategy, one pattern character at a time.\<close>

definition follows_pattern :: "char \<Rightarrow> char \<Rightarrow> bool" where
  "follows_pattern p c =
     (if p = CHR ''l'' then c \<in> set lowercase
      else if p = CHR ''L'' then c \<in> set uppercase
      else if p = CHR ''d'' then c \<in> set digits
      else if p = CHR ''s'' then c \<in> set symbols
      else if p = CHR ''a'' then c \<in> set (lowercase @ uppercase @ digits)
      else if p = CHR ''*'' then c \<in> set (lowercase @ uppercase @ digits @ symbols)
      else c = p)"

text \<open>
  Inputs for the worked examples: an estimator that answers every password with the
  given score, and a generator state before any draw.
\<close>

definition estimator_stub :: "int \<Rightarrow> string \<Rightarrow> error + zxcvbn_result" where
  "estimator_stub n password =
     Inr \<lparr>zx_score = n,
          zx_crack_times_display =
            \<lparr>offline_slow_hashing_1e4_per_second = ''1 second'',
             offline_fast_hashing_1e10_per_second = ''less than a second'',
             online_throttling_100_per_hour = ''1 day'',
             online_no_throttling_10_per_second = ''1 minute''\<rparr>,
          zx_feedback = None\<rparr>"


definition fresh_rng :: "(nat \<Rightarrow> nat) \<Rightarrow> (nat \<Rightarrow> nat) \<Rightarrow> rng_state" where
  "fresh_rng s r = \<lparr>secrets_seq = s, secrets_used = 0, random_seq = r, random_used = 0\<rparr>"

text \<open>What a run of a generator returns, with the number of draws made from each source.\<close>

definition outcome :: "error + (string \<times> rng_state) \<Rightarrow> error + (string \<times> nat \<times> nat)" where
  "outcome r = (case r of Inl e \<Rightarrow> Inl e | Inr (p, g) \<Rightarrow> Inr (p, secrets_used g, random_used g))"

section \<open>Properties of the analyzer\<close>

subsection \<open>Entropy and score\<close>

lemma log_2_32: "log 2 32 = (5::real)"
proof -
  have "(32::real) = 2 powr 5" by simp
  then show ?thesis by (simp only: log_powr_cancel)
qed

lemma round2_nonneg: "0 \<le> x \<Longrightarrow> 0 \<le> round2 x"
  by (auto simp: round2_def Let_def)

lemma calculate_entropy_returns: "\<exists>e. calculate_entropy password = Inr e \<and> 0 \<le> e"
  by (auto simp: calculate_entropy_def log2_def Let_def intro!: round2_nonneg)

lemma length_points:
  "(if int n \<ge> 16 then (0::int) + 30 else if int n \<ge> 12 then 0 + 25
    else if int n \<ge> 8 then 0 + 15 else 0 + max 0 (int n * 2)) = spec_length_component n"
  by (simp add: spec_length_component_def)

lemma entropy_points:
  "0 \<le> e \<Longrightarrow>
   (if e \<ge> 60 then a + 30 else if e \<ge> 40 then a + 20
    else if e \<ge> 25 then a + 10 else a + max 0 (py_int (e / 2))) = a + spec_entropy_component e"
  by (simp add: spec_entropy_component_def py_int_def)

lemma diversity_points:
  "sum_list (map (\<lambda>v. 5) (filter (\<lambda>v. v) (diversity_values d))) = spec_diversity_component d"
  by (simp add: diversity_values_def spec_diversity_component_def)

lemma penalty_points:
  "fold (\<lambda>(pattern, has_pattern) sc. if has_pattern then sc + penalties_get pattern 0 else sc)
        (patterns_items p) a = a + spec_pattern_penalties p"
  by (simp add: patterns_items_def penalties_get_def penalties_def spec_pattern_penalties_def)

lemma strength_label: "strength_of s = label_text (spec_label s)"
  by (simp add: strength_of_def spec_label_def label_text_def)

lemma calculate_score_nonempty:
  assumes "password \<noteq> []" and "calculate_entropy password = Inr e" and "zxcvbn password = Inr z"
  shows "calculate_score zxcvbn password =
     Inr (spec_score (length password) e (get_character_diversity password)
            (check_patterns password) (zx_score z),
          label_text (spec_label (spec_score (length password) e (get_character_diversity password)
            (check_patterns password) (zx_score z))))"
proof -
  from assms(2) calculate_entropy_returns [of password] have e: "0 \<le> e" by auto
  show ?thesis
    unfolding calculate_score_def Let_def
    by (simp only: assms if_False sum.case length_points entropy_points [OF e]
        diversity_points penalty_points strength_label spec_score_def)
       (simp add: algebra_simps)
qed

lemma calculate_score_empty: "calculate_score zxcvbn [] = Inr (0, ''Empty'')"
  by (simp add: calculate_score_def)

lemma calculate_score_fails:
  assumes "password \<noteq> []" and "zxcvbn password = Inl x"
  shows "calculate_score zxcvbn password = Inl x"
proof -
  from calculate_entropy_returns [of password] obtain e where
    "calculate_entropy password = Inr e" by blast
  then show ?thesis
    unfolding calculate_score_def Let_def by (simp only: assms if_False sum.case)
qed

lemma spec_score_bounds: "0 \<le> spec_score n e d p z \<and> spec_score n e d p z \<le> 100"
  by (simp add: spec_score_def)

lemma calculate_score_returns:
  assumes "zxcvbn password = Inr z"
  shows "\<exists>s l. calculate_score zxcvbn password = Inr (s, l) \<and> 0 \<le> s \<and> s \<le> 100"
proof (cases "password = []")
  case True
  then show ?thesis by (simp add: calculate_score_empty)
next
  case False
  from calculate_entropy_returns [of password] obtain e where
    e: "calculate_entropy password = Inr e" by blast
  show ?thesis
    using calculate_score_nonempty [where zxcvbn = zxcvbn and password = password, OF False e assms]
      spec_score_bounds by simp
qed

lemma calculate_score_bounds:
  assumes "calculate_score zxcvbn password = Inr (s, l)"
  shows "0 \<le> s \<and> s \<le> 100"
proof (cases "password = []")
  case True
  with assms show ?thesis by (simp add: calculate_score_empty)
next
  case False
  show ?thesis
  proof (cases "zxcvbn password")
    case (Inl x)
    from calculate_score_fails [where zxcvbn = zxcvbn and password = password, OF False Inl] assms
    show ?thesis by simp
  next
    case (Inr z)
    from calculate_score_returns [where zxcvbn = zxcvbn and password = password, OF Inr] assms
    show ?thesis by auto
  qed
qed

subsection \<open>Worked inputs\<close>

lemma symbols_only_classes:
  "\<not> re_search re_lowercase ''!@#$''" "\<not> re_search re_uppercase ''!@#$''"
  "\<not> re_search re_number ''!@#$''" "re_search re_symbol ''!@#$''"
  by code_simp+

lemma symbols_only_entropy: "calculate_entropy ''!@#$'' = Inr 20"
  by (simp add: calculate_entropy_def symbols_only_classes log2_def log_2_32 round2_def)

lemma symbols_only_diversity:
  "get_character_diversity ''!@#$'' =
     \<lparr>has_lowercase = False, has_uppercase = False, has_numbers = False,
      has_symbols = True, has_spaces = False\<rparr>"
  by code_simp

lemma symbols_only_patterns:
  "check_patterns ''!@#$'' =
     \<lparr>sequential_numbers = False, sequential_letters = False, repeated_characters = False,
      keyboard_pattern = False, common_word = False, date_pattern = False\<rparr>"
  by code_simp

lemma symbols_only_score:
  "spec_score (length ''!@#$'') 20 (get_character_diversity ''!@#$'') (check_patterns ''!@#$'') 3 = 35"
  by (simp add: symbols_only_diversity symbols_only_patterns spec_score_def
      spec_length_component_def spec_entropy_component_def spec_diversity_component_def
      spec_pattern_penalties_def)

lemma empty_patterns:
  "check_patterns [] =
     \<lparr>sequential_numbers = False, sequential_letters = False, repeated_characters = False,
      keyboard_pattern = False, common_word = False, date_pattern = False\<rparr>"
  by code_simp

lemma empty_diversity:
  "get_character_diversity [] =
     \<lparr>has_lowercase = False, has_uppercase = False, has_numbers = False,
      has_symbols = False, has_spaces = False\<rparr>"
  by code_simp

lemma short_diverse_patterns:
  "check_patterns ''aB1 !'' =
     \<lparr>sequential_numbers = False, sequential_letters = False, repeated_characters = False,
      keyboard_pattern = False, common_word = False, date_pattern = False\<rparr>"
  by code_simp

lemma short_diverse_diversity:
  "get_character_diversity ''aB1 !'' =
     \<lparr>has_lowercase = True, has_uppercase = True, has_numbers = True,
      has_symbols = True, has_spaces = True\<rparr>"
  by code_simp

lemma long_diverse_patterns:
  "check_patterns ''Tr0ub4dor&3xY'' =
     \<lparr>sequential_numbers = False, sequential_letters = False, repeated_characters = False,
      keyboard_pattern = False, common_word = False, date_pattern = False\<rparr>"
  by code_simp

lemma long_diverse_diversity:
  "get_character_diversity ''Tr0ub4dor&3xY'' =
     \<lparr>has_lowercase = True, has_uppercase = True, has_numbers = True,
      has_symbols = True, has_spaces = False\<rparr>"
  by code_simp

subsection \<open>The report\<close>


lemma analyze_returns:
  assumes "zxcvbn password = Inr z"
    and "calculate_score zxcvbn password = Inr (s, l)"
    and "calculate_entropy password = Inr e"
  shows "analyze zxcvbn password =
     Inr \<lparr>password_length = length password, score = s, strength = l, entropy_bits = e,
          patterns_found = check_patterns password,
          character_diversity = get_character_diversity password,
          crack_time_estimates =
            \<lparr>offline_slow = offline_slow_hashing_1e4_per_second (zx_crack_times_display z),
             offline_fast = offline_fast_hashing_1e10_per_second (zx_crack_times_display z),
             online_throttled = online_throttling_100_per_hour (zx_crack_times_display z),
             online_unthrottled = online_no_throttling_10_per_second (zx_crack_times_display z)\<rparr>,
          recommendations = generate_recommendations password (check_patterns password)
                              (get_character_diversity password),
          zxcvbn_score = zx_score z,
          warning = (case fb_warning (case zx_feedback z of
                           None \<Rightarrow> \<lparr>fb_warning = None, fb_suggestions = None\<rparr> | Some fb \<Rightarrow> fb) of
                       None \<Rightarrow> [] | Some w \<Rightarrow> w),
          suggestions = (case fb_suggestions (case zx_feedback z of
                           None \<Rightarrow> \<lparr>fb_warning = None, fb_suggestions = None\<rparr> | Some fb \<Rightarrow> fb) of
                       None \<Rightarrow> [] | Some w \<Rightarrow> w)\<rparr>"
  unfolding analyze_def Let_def by (simp only: assms sum.case prod.case)

lemma analyze_fails:
  assumes "zxcvbn password = Inl x"
  shows "analyze zxcvbn password = Inl x"
proof (cases "password = []")
  case True
  from calculate_entropy_returns [of password] obtain e where
    e: "calculate_entropy password = Inr e" by blast
  have "calculate_score zxcvbn password = Inr (0, ''Empty'')"
    using True by (simp add: calculate_score_empty)
  then show ?thesis
    unfolding analyze_def Let_def by (simp only: assms e sum.case prod.case)
next
  case False
  have "calculate_score zxcvbn password = Inl x"
    by (rule calculate_score_fails [where zxcvbn = zxcvbn and password = password, OF False assms])
  then show ?thesis
    unfolding analyze_def by (simp only: sum.case)
qed

text \<open>
  Claim C1. For every password the composite score that \<open>calculate_score\<close> returns, and
  the one in the report of \<open>analyze\<close>, is an integer between 0 and 100, and
  \<open>calculate_entropy\<close> returns a value that is at least 0. The score exists whenever the
  external estimator answers.
\<close>

theorem score_and_entropy_in_range:
  "(\<exists>e. calculate_entropy password = Inr e \<and> 0 \<le> e) \<and>
   (\<forall>s l. calculate_score zxcvbn password = Inr (s, l) \<longrightarrow> 0 \<le> s \<and> s \<le> 100) \<and>
   (\<forall>z. zxcvbn password = Inr z \<longrightarrow> (\<exists>s l. calculate_score zxcvbn password = Inr (s, l))) \<and>
   (\<forall>r. analyze zxcvbn password = Inr r \<longrightarrow>
        0 \<le> score r \<and> score r \<le> 100 \<and> 0 \<le> entropy_bits r)"
proof (intro conjI allI impI)
  show "\<exists>e. calculate_entropy password = Inr e \<and> 0 \<le> e"
    by (rule calculate_entropy_returns)
next
  fix s l assume "calculate_score zxcvbn password = Inr (s, l)"
  then show "0 \<le> s" "s \<le> 100"
    using calculate_score_bounds [where zxcvbn = zxcvbn and password = password] by blast+
next
  fix z assume "zxcvbn password = Inr z"
  then show "\<exists>s l. calculate_score zxcvbn password = Inr (s, l)"
    using calculate_score_returns [where zxcvbn = zxcvbn and password = password] by blast
next
  fix r assume r: "analyze zxcvbn password = Inr r"
  from calculate_entropy_returns [of password] obtain e where
    e: "calculate_entropy password = Inr e" "0 \<le> e" by blast
  from r obtain z where z: "zxcvbn password = Inr z"
    using analyze_fails [where zxcvbn = zxcvbn and password = password]
    by (cases "zxcvbn password") auto
  from calculate_score_returns [where zxcvbn = zxcvbn and password = password, OF z]
  obtain s l where s: "calculate_score zxcvbn password = Inr (s, l)" "0 \<le> s" "s \<le> 100"
    by blast
  from analyze_returns [where zxcvbn = zxcvbn and password = password, OF z s(1) e(1)] r
  have "score r = s" "entropy_bits r = e" by auto
  with s e show "0 \<le> score r" "score r \<le> 100" "0 \<le> entropy_bits r" by simp_all
qed

theorem score_and_entropy_in_range_witness:
  "\<exists>s l e. calculate_score (estimator_stub 3) ''!@#$'' = Inr (s, l) \<and> 0 \<le> s \<and> s \<le> 100 \<and>
     calculate_entropy ''!@#$'' = Inr e \<and> 0 \<le> e"
  using score_and_entropy_in_range [of "''!@#$''" "estimator_stub 3"]
  by (auto simp: estimator_stub_def)

text \<open>
  Claim C2. For the empty password \<open>calculate_score\<close> returns score 0 with the label
  \<open>Empty\<close>, a label that no other score receives (so it is a sixth label, distinct from
  \<open>Very Weak\<close>); every flag of \<open>check_patterns\<close> and every flag of
  \<open>get_character_diversity\<close> is false; and whenever the external estimator answers the
  empty password, the report of \<open>analyze\<close> carries exactly these values.
\<close>

theorem empty_password_analysis:
  "calculate_score zxcvbn [] = Inr (0, ''Empty'') \<and>
   (\<forall>n. strength_of n \<noteq> ''Empty'') \<and>
   check_patterns [] =
     \<lparr>sequential_numbers = False, sequential_letters = False, repeated_characters = False,
      keyboard_pattern = False, common_word = False, date_pattern = False\<rparr> \<and>
   get_character_diversity [] =
     \<lparr>has_lowercase = False, has_uppercase = False, has_numbers = False,
      has_symbols = False, has_spaces = False\<rparr> \<and>
   (\<forall>z. zxcvbn [] = Inr z \<longrightarrow>
      (\<exists>r. analyze zxcvbn [] = Inr r \<and> score r = 0 \<and> strength r = ''Empty'' \<and>
           patterns_found r =
             \<lparr>sequential_numbers = False, sequential_letters = False,
              repeated_characters = False, keyboard_pattern = False, common_word = False,
              date_pattern = False\<rparr> \<and>
           character_diversity r =
             \<lparr>has_lowercase = False, has_uppercase = False, has_numbers = False,
              has_symbols = False, has_spaces = False\<rparr>))"
proof (intro conjI allI impI)
  show "calculate_score zxcvbn [] = Inr (0, ''Empty'')" by (rule calculate_score_empty)
next
  fix n show "strength_of n \<noteq> ''Empty''" by (simp add: strength_of_def)
next
  show "check_patterns [] =
     \<lparr>sequential_numbers = False, sequential_letters = False, repeated_characters = False,
      keyboard_pattern = False, common_word = False, date_pattern = False\<rparr>"
    by (rule empty_patterns)
next
  show "get_character_diversity [] =
     \<lparr>has_lowercase = False, has_uppercase = False, has_numbers = False,
      has_symbols = False, has_spaces = False\<rparr>"
    by (rule empty_diversity)
next
  fix z assume z: "zxcvbn [] = Inr z"
  from calculate_entropy_returns [of "[]"] obtain e where
    e: "calculate_entropy [] = Inr e" by blast
  have s: "calculate_score zxcvbn [] = Inr (0, ''Empty'')" by (rule calculate_score_empty)
  show "\<exists>r. analyze zxcvbn [] = Inr r \<and> score r = 0 \<and> strength r = ''Empty'' \<and>
           patterns_found r =
             \<lparr>sequential_numbers = False, sequential_letters = False,
              repeated_characters = False, keyboard_pattern = False, common_word = False,
              date_pattern = False\<rparr> \<and>
           character_diversity r =
             \<lparr>has_lowercase = False, has_uppercase = False, has_numbers = False,
              has_symbols = False, has_spaces = False\<rparr>"
    using analyze_returns [where zxcvbn = zxcvbn and password = "[]", OF z s e]
    by (simp add: empty_patterns empty_diversity)
qed

theorem empty_password_analysis_witness:
  "\<exists>r. analyze (estimator_stub 0) [] = Inr r \<and> score r = 0 \<and> strength r = ''Empty'' \<and>
       \<not> keyboard_pattern (patterns_found r) \<and> \<not> has_spaces (character_diversity r)"
proof -
  have "estimator_stub 0 [] = Inr \<lparr>zx_score = 0,
          zx_crack_times_display =
            \<lparr>offline_slow_hashing_1e4_per_second = ''1 second'',
             offline_fast_hashing_1e10_per_second = ''less than a second'',
             online_throttling_100_per_hour = ''1 day'',
             online_no_throttling_10_per_second = ''1 minute''\<rparr>,
          zx_feedback = None\<rparr>"
    by (simp add: estimator_stub_def)
  with empty_password_analysis [of "estimator_stub 0"] obtain r where
    "analyze (estimator_stub 0) [] = Inr r" "score r = 0" "strength r = ''Empty''"
    "patterns_found r =
             \<lparr>sequential_numbers = False, sequential_letters = False,
              repeated_characters = False, keyboard_pattern = False, common_word = False,
              date_pattern = False\<rparr>"
    "character_diversity r =
             \<lparr>has_lowercase = False, has_uppercase = False, has_numbers = False,
              has_symbols = False, has_spaces = False\<rparr>"
    by blast
  then show ?thesis by simp
qed




text \<open>
  Claim C4. For every non-empty password that the external estimator answers with score
  \<open>z\<close>, \<open>calculate_score\<close> returns the sum of the length component, the entropy
  component, 5 points per true diversity flag, the fixed penalties of the matched
  patterns and \<open>4 * z\<close>, clamped to the range 0 to 100, with the label of the
  specification's thresholds (80, 60, 40, 20).
\<close>

theorem calculate_score_formula:
  "password \<noteq> [] \<Longrightarrow> zxcvbn password = Inr z \<Longrightarrow>
   \<exists>e. calculate_entropy password = Inr e \<and>
       calculate_score zxcvbn password =
         Inr (spec_score (length password) e (get_character_diversity password)
                (check_patterns password) (zx_score z),
              label_text (spec_label
                (spec_score (length password) e (get_character_diversity password)
                   (check_patterns password) (zx_score z))))"
proof -
  assume p: "password \<noteq> []" and z: "zxcvbn password = Inr z"
  from calculate_entropy_returns [of password] obtain e where
    e: "calculate_entropy password = Inr e" by blast
  from calculate_score_nonempty [where zxcvbn = zxcvbn and password = password, OF p e z] e
  show ?thesis by blast
qed

theorem calculate_score_formula_witness:
  "calculate_score (estimator_stub 3) ''!@#$'' = Inr (35, ''Weak'')"
proof -
  have p: "''!@#$'' \<noteq> []" by simp
  have z: "estimator_stub 3 ''!@#$'' = Inr \<lparr>zx_score = 3,
          zx_crack_times_display =
            \<lparr>offline_slow_hashing_1e4_per_second = ''1 second'',
             offline_fast_hashing_1e10_per_second = ''less than a second'',
             online_throttling_100_per_hour = ''1 day'',
             online_no_throttling_10_per_second = ''1 minute''\<rparr>,
          zx_feedback = None\<rparr>"
    by (simp add: estimator_stub_def)
  from calculate_score_formula [where zxcvbn = "estimator_stub 3", OF p z]
  show ?thesis
    by (simp add: symbols_only_entropy symbols_only_score [simplified] spec_label_def
        label_text_def)
qed

text \<open>
  Claim C8, as amended. The recommendation list is never empty, and for every password
  of at least 12 characters that has an uppercase letter, a lowercase letter, a digit
  and a symbol and triggers no pattern, \<open>generate_recommendations\<close> returns exactly the
  one affirmative recommendation.
\<close>

theorem recommendations_affirmative:
  "generate_recommendations password patterns diversity \<noteq> [] \<and>
   (12 \<le> length password \<and> has_uppercase diversity \<and> has_lowercase diversity \<and>
    has_numbers diversity \<and> has_symbols diversity \<and>
    \<not> sequential_numbers patterns \<and> \<not> sequential_letters patterns \<and>
    \<not> repeated_characters patterns \<and> \<not> keyboard_pattern patterns \<and>
    \<not> common_word patterns \<and> \<not> date_pattern patterns \<longrightarrow>
    generate_recommendations password patterns diversity =
      [''Great password! Consider using a password manager to store it securely.''])"
  by (simp add: generate_recommendations_def Let_def)

theorem recommendations_affirmative_witness:
  "generate_recommendations ''Tr0ub4dor&3xY'' (check_patterns ''Tr0ub4dor&3xY'')
     (get_character_diversity ''Tr0ub4dor&3xY'') =
   [''Great password! Consider using a password manager to store it securely.'']"
  using recommendations_affirmative [of "''Tr0ub4dor&3xY''" "check_patterns ''Tr0ub4dor&3xY''"
      "get_character_diversity ''Tr0ub4dor&3xY''"]
  by (simp add: long_diverse_patterns long_diverse_diversity)

text \<open>
  The claim as first stated, without the length condition, fails: the five-character
  password \<open>aB1 !\<close> has every diversity flag true and triggers no pattern, and its only
  recommendation is to increase the length.
\<close>

theorem recommendations_short_counterexample:
  "get_character_diversity ''aB1 !'' =
     \<lparr>has_lowercase = True, has_uppercase = True, has_numbers = True,
      has_symbols = True, has_spaces = True\<rparr> \<and>
   check_patterns ''aB1 !'' =
     \<lparr>sequential_numbers = False, sequential_letters = False, repeated_characters = False,
      keyboard_pattern = False, common_word = False, date_pattern = False\<rparr> \<and>
   generate_recommendations ''aB1 !'' (check_patterns ''aB1 !'')
     (get_character_diversity ''aB1 !'') =
     [''Increase password length to at least 12 characters''] \<and>
   generate_recommendations ''aB1 !'' (check_patterns ''aB1 !'')
     (get_character_diversity ''aB1 !'') \<noteq>
     [''Great password! Consider using a password manager to store it securely.'']"
  by (simp add: short_diverse_patterns short_diverse_diversity generate_recommendations_def)

section \<open>Properties of the generator\<close>

subsection \<open>Draws, filling and shuffling\<close>

lemma secrets_choice_ok:
  "seq \<noteq> [] \<Longrightarrow>
   \<exists>c. secrets_choice seq g = Inr (c, g\<lparr>secrets_used := Suc (secrets_used g)\<rparr>) \<and> c \<in> set seq"
  by (simp add: secrets_choice_def secrets_randbelow_def)

lemma fill_ok:
  "char_pool \<noteq> [] \<Longrightarrow>
   \<exists>ext. fill n char_pool password g = Inr (password @ ext, g\<lparr>secrets_used := secrets_used g + n\<rparr>)
      \<and> length ext = n \<and> set ext \<subseteq> set char_pool"
proof (induction n arbitrary: password g)
  case 0
  then show ?case by simp
next
  case (Suc n)
  from secrets_choice_ok [OF Suc.prems, of g] obtain c where
    c: "secrets_choice char_pool g = Inr (c, g\<lparr>secrets_used := Suc (secrets_used g)\<rparr>)" "c \<in> set char_pool"
    by blast
  from Suc.IH [OF Suc.prems, of "password @ [c]" "g\<lparr>secrets_used := Suc (secrets_used g)\<rparr>"]
  obtain ext where
    ext: "fill n char_pool (password @ [c]) (g\<lparr>secrets_used := Suc (secrets_used g)\<rparr>) =
            Inr ((password @ [c]) @ ext, g\<lparr>secrets_used := Suc (secrets_used g) + n\<rparr>)"
         "length ext = n" "set ext \<subseteq> set char_pool"
    by auto
  show ?case
    by (rule exI [of _ "c # ext"]) (use c ext in simp)
qed

lemma shuffle_loop_mset: "k < length x \<Longrightarrow> mset (fst (shuffle_loop k x g)) = mset x"
proof (induction k arbitrary: x g)
  case 0
  then show ?case by simp
next
  case (Suc k)
  let ?j = "random_seq g (random_used g) mod (Suc k + 1)"
  have j: "?j < length x" using Suc.prems by (simp add: less_le_trans [OF mod_less_divisor] Suc_leI)
  have "mset (x[Suc k := x ! ?j, ?j := x ! Suc k]) = mset x"
    using mset_swap [OF j Suc.prems] by simp
  moreover have "k < length (x[Suc k := x ! ?j, ?j := x ! Suc k])" using Suc.prems by simp
  ultimately show ?case using Suc.IH by (simp add: random_randbelow_def)
qed

lemma shuffle_loop_state: "snd (shuffle_loop k x g) = g\<lparr>random_used := random_used g + k\<rparr>"
  by (induction k arbitrary: x g) (simp_all add: random_randbelow_def)

lemma random_shuffle_mset: "mset (fst (random_shuffle x g)) = mset x"
  by (cases "x = []") (simp_all add: random_shuffle_def shuffle_loop_mset)

lemma random_shuffle_state:
  "snd (random_shuffle x g) = g\<lparr>random_used := random_used g + (length x - 1)\<rparr>"
  by (simp add: random_shuffle_def shuffle_loop_state)

subsection \<open>The Random strategy\<close>

lemma stage_ok:
  assumes "chars \<noteq> []"
  shows "\<exists>req'. (if use then add_class chars (pool, req, g) else Inr (pool, req, g)) =
            Inr (pool @ (if use then chars else []), req @ req',
                 g\<lparr>secrets_used := secrets_used g + length req'\<rparr>)
          \<and> length req' = (if use then 1 else 0) \<and> set req' \<subseteq> set chars"
proof (cases use)
  case True
  from secrets_choice_ok [OF assms, of g] obtain c where
    "secrets_choice chars g = Inr (c, g\<lparr>secrets_used := Suc (secrets_used g)\<rparr>)" "c \<in> set chars"
    by blast
  then show ?thesis using True by (intro exI [of _ "[c]"]) (simp add: add_class_def)
next
  case False
  then show ?thesis by (intro exI [of _ "[]"]) simp
qed

lemma fold_str_remove: "fold str_remove excl pool = filter (\<lambda>c. c \<notin> set excl) pool"
  by (induction excl arbitrary: pool) (auto simp: str_remove_def intro: filter_cong)

lemma lowercase_chars:
  "(if amb then str_remove (CHR ''o'') (str_remove (CHR ''l'') lowercase) else lowercase) =
     filter (\<lambda>c. \<not> (amb \<and> c \<in> {CHR ''l'', CHR ''o''})) lowercase"
  by (simp add: str_remove_def lowercase_def)

lemma uppercase_chars:
  "(if amb then str_remove (CHR ''I'') (str_remove (CHR ''O'') uppercase) else uppercase) =
     filter (\<lambda>c. \<not> (amb \<and> c \<in> {CHR ''O'', CHR ''I''})) uppercase"
  by (simp add: str_remove_def uppercase_def)

lemma digits_chars:
  "(if amb then str_remove (CHR ''1'') (str_remove (CHR ''0'') digits) else digits) =
     filter (\<lambda>c. \<not> (amb \<and> c \<in> {CHR ''0'', CHR ''1''})) digits"
  by (simp add: str_remove_def digits_def)

lemma class_chars_nonempty:
  "filter (\<lambda>c. \<not> (amb \<and> c \<in> {CHR ''l'', CHR ''o''})) lowercase \<noteq> []"
  "filter (\<lambda>c. \<not> (amb \<and> c \<in> {CHR ''O'', CHR ''I''})) uppercase \<noteq> []"
  "filter (\<lambda>c. \<not> (amb \<and> c \<in> {CHR ''0'', CHR ''1''})) digits \<noteq> []"
  "symbols \<noteq> []"
  by (simp_all add: lowercase_def uppercase_def digits_def symbols_def)

lemma generate_random_shape:
  assumes len: "4 \<le> len"
  shows "\<exists>required.
     length required \<le> 4 \<and>
     (ul \<longrightarrow> (\<exists>c\<in>set required. c \<in> set lowercase)) \<and>
     (uu \<longrightarrow> (\<exists>c\<in>set required. c \<in> set uppercase)) \<and>
     (ud \<longrightarrow> (\<exists>c\<in>set required. c \<in> set digits)) \<and>
     (us \<longrightarrow> (\<exists>c\<in>set required. c \<in> set symbols)) \<and>
     generate_random len ul uu ud us amb excl g =
       (if selection_pool ul uu ud us amb excl = []
        then Inl (ValueError ''No characters available with the specified criteria'')
        else case fill (nat (len - int (length required))) (selection_pool ul uu ud us amb excl)
                    required (g\<lparr>secrets_used := secrets_used g + length required\<rparr>) of
               Inl e \<Rightarrow> Inl e
             | Inr (password, g5) \<Rightarrow> Inr (random_shuffle password g5))"
proof -
  let ?c1 = "filter (\<lambda>c. \<not> (amb \<and> c \<in> {CHR ''l'', CHR ''o''})) lowercase"
  let ?c2 = "filter (\<lambda>c. \<not> (amb \<and> c \<in> {CHR ''O'', CHR ''I''})) uppercase"
  let ?c3 = "filter (\<lambda>c. \<not> (amb \<and> c \<in> {CHR ''0'', CHR ''1''})) digits"
  let ?p1 = "(if ul then ?c1 else [])"
  let ?p2 = "?p1 @ (if uu then ?c2 else [])"
  let ?p3 = "?p2 @ (if ud then ?c3 else [])"
  let ?p4 = "?p3 @ (if us then symbols else [])"
  from stage_ok [of ?c1 ul "[]" "[]" g, OF class_chars_nonempty(1)] obtain r1 where
    s1: "(if ul then add_class ?c1 ([], [], g) else Inr ([], [], g)) =
           Inr (?p1, r1, g\<lparr>secrets_used := secrets_used g + length r1\<rparr>)"
      and l1: "length r1 = (if ul then 1 else 0)" and m1: "set r1 \<subseteq> set ?c1"
    by auto
  let ?g1 = "g\<lparr>secrets_used := secrets_used g + length r1\<rparr>"
  from stage_ok [of ?c2 uu ?p1 r1 ?g1, OF class_chars_nonempty(2)] obtain r2 where
    s2: "(if uu then add_class ?c2 (?p1, r1, ?g1) else Inr (?p1, r1, ?g1)) =
           Inr (?p2, r1 @ r2, g\<lparr>secrets_used := secrets_used g + length r1 + length r2\<rparr>)"
      and l2: "length r2 = (if uu then 1 else 0)" and m2: "set r2 \<subseteq> set ?c2"
    by auto
  let ?g2 = "g\<lparr>secrets_used := secrets_used g + length r1 + length r2\<rparr>"
  from stage_ok [of ?c3 ud ?p2 "r1 @ r2" ?g2, OF class_chars_nonempty(3)] obtain r3 where
    s3: "(if ud then add_class ?c3 (?p2, r1 @ r2, ?g2) else Inr (?p2, r1 @ r2, ?g2)) =
           Inr (?p3, r1 @ r2 @ r3,
                g\<lparr>secrets_used := secrets_used g + length r1 + length r2 + length r3\<rparr>)"
      and l3: "length r3 = (if ud then 1 else 0)" and m3: "set r3 \<subseteq> set ?c3"
    by auto
  let ?g3 = "g\<lparr>secrets_used := secrets_used g + length r1 + length r2 + length r3\<rparr>"
  from stage_ok [of symbols us ?p3 "r1 @ r2 @ r3" ?g3, OF class_chars_nonempty(4)] obtain r4 where
    s4: "(if us then add_class symbols (?p3, r1 @ r2 @ r3, ?g3) else Inr (?p3, r1 @ r2 @ r3, ?g3)) =
           Inr (?p4, r1 @ r2 @ r3 @ r4,
                g\<lparr>secrets_used := secrets_used g + length r1 + length r2 + length r3 + length r4\<rparr>)"
      and l4: "length r4 = (if us then 1 else 0)" and m4: "set r4 \<subseteq> set symbols"
    by auto
  let ?req = "r1 @ r2 @ r3 @ r4"
  have pool: "fold str_remove excl ?p4 = selection_pool ul uu ud us amb excl"
    by (simp add: fold_str_remove selection_pool_def)
  have run: "generate_random len ul uu ud us amb excl g =
       (if selection_pool ul uu ud us amb excl = []
        then Inl (ValueError ''No characters available with the specified criteria'')
        else case fill (nat (len - int (length ?req))) (selection_pool ul uu ud us amb excl)
                    ?req (g\<lparr>secrets_used := secrets_used g + length ?req\<rparr>) of
               Inl e \<Rightarrow> Inl e
             | Inr (password, g5) \<Rightarrow> Inr (random_shuffle password g5))"
    unfolding generate_random_def lowercase_chars uppercase_chars digits_chars
    using len by (simp only: s1 s2 s3 s4 pool Let_def sum.case prod.case) (simp add: add.assoc)
  have c1: "ul \<longrightarrow> (\<exists>c\<in>set ?req. c \<in> set lowercase)"
    using l1 m1 by (cases r1) auto
  have c2: "uu \<longrightarrow> (\<exists>c\<in>set ?req. c \<in> set uppercase)"
    using l2 m2 by (cases r2) auto
  have c3: "ud \<longrightarrow> (\<exists>c\<in>set ?req. c \<in> set digits)"
    using l3 m3 by (cases r3) auto
  have c4: "us \<longrightarrow> (\<exists>c\<in>set ?req. c \<in> set symbols)"
    using l4 m4 by (cases r4) auto
  have le: "length ?req \<le> 4" using l1 l2 l3 l4 by simp
  show ?thesis
    by (rule exI [of _ ?req]) (use le c1 c2 c3 c4 run in blast)
qed

lemma generate_random_short:
  "len < 4 \<Longrightarrow> generate_random len ul uu ud us amb excl g =
     Inl (ValueError ''Password length must be at least 4 characters'')"
  by (simp add: generate_random_def)

lemma generate_random_empty_pool:
  assumes "4 \<le> len" and "selection_pool ul uu ud us amb excl = []"
  shows "generate_random len ul uu ud us amb excl g =
     Inl (ValueError ''No characters available with the specified criteria'')"
  using generate_random_shape [OF assms(1), of ul uu ud us amb excl g] assms(2) by auto

lemma generate_random_success:
  assumes len: "4 \<le> len" and pool: "selection_pool ul uu ud us amb excl \<noteq> []"
  shows "\<exists>password g'. generate_random len ul uu ud us amb excl g = Inr (password, g') \<and>
     int (length password) = len \<and>
     (ul \<longrightarrow> (\<exists>c\<in>set password. c \<in> set lowercase)) \<and>
     (uu \<longrightarrow> (\<exists>c\<in>set password. c \<in> set uppercase)) \<and>
     (ud \<longrightarrow> (\<exists>c\<in>set password. c \<in> set digits)) \<and>
     (us \<longrightarrow> (\<exists>c\<in>set password. c \<in> set symbols)) \<and>
     secrets_used g' = secrets_used g + nat len \<and>
     random_used g' = random_used g + (nat len - 1)"
proof -
  from generate_random_shape [OF len, of ul uu ud us amb excl g] pool obtain required where
    r: "length required \<le> 4"
      "ul \<longrightarrow> (\<exists>c\<in>set required. c \<in> set lowercase)"
      "uu \<longrightarrow> (\<exists>c\<in>set required. c \<in> set uppercase)"
      "ud \<longrightarrow> (\<exists>c\<in>set required. c \<in> set digits)"
      "us \<longrightarrow> (\<exists>c\<in>set required. c \<in> set symbols)"
    and run: "generate_random len ul uu ud us amb excl g =
        (case fill (nat (len - int (length required))) (selection_pool ul uu ud us amb excl)
                    required (g\<lparr>secrets_used := secrets_used g + length required\<rparr>) of
               Inl e \<Rightarrow> Inl e
             | Inr (password, g5) \<Rightarrow> Inr (random_shuffle password g5))"
    by auto
  let ?g4 = "g\<lparr>secrets_used := secrets_used g + length required\<rparr>"
  let ?n = "nat (len - int (length required))"
  from fill_ok [OF pool, of ?n required ?g4] obtain ext where
    f: "fill ?n (selection_pool ul uu ud us amb excl) required ?g4 =
          Inr (required @ ext, ?g4\<lparr>secrets_used := secrets_used ?g4 + ?n\<rparr>)"
       "length ext = ?n"
    by blast
  let ?g5 = "?g4\<lparr>secrets_used := secrets_used ?g4 + ?n\<rparr>"
  let ?out = "random_shuffle (required @ ext) ?g5"
  have res: "generate_random len ul uu ud us amb excl g = Inr (fst ?out, snd ?out)"
    by (simp only: run f sum.case prod.case prod.collapse)
  have m: "mset (fst ?out) = mset (required @ ext)" by (rule random_shuffle_mset)
  have n: "length (required @ ext) = nat len" using r(1) len f(2) by simp
  have s: "set (fst ?out) = set (required @ ext)" using m by (rule mset_eq_setD)
  have l: "length (fst ?out) = nat len" using mset_eq_length [OF m] n by simp
  have st: "snd ?out = ?g5\<lparr>random_used := random_used ?g5 + (nat len - 1)\<rparr>"
    by (simp only: random_shuffle_state n)
  have su: "secrets_used (snd ?out) = secrets_used g + nat len"
    unfolding st using r(1) len by simp
  have ru: "random_used (snd ?out) = random_used g + (nat len - 1)"
    unfolding st by simp
  show ?thesis
    apply (rule exI [of _ "fst ?out"], rule exI [of _ "snd ?out"])
    using res l s r(2-5) su ru len by auto
qed

subsection \<open>The Custom Pattern strategy\<close>

lemma pattern_step_ok:
  "\<exists>c g1. (if char = CHR ''l'' then secrets_choice lowercase g
            else if char = CHR ''L'' then secrets_choice uppercase g
            else if char = CHR ''d'' then secrets_choice digits g
            else if char = CHR ''s'' then secrets_choice symbols g
            else if char = CHR ''a'' then secrets_choice (lowercase @ uppercase @ digits) g
            else if char = CHR ''*'' then secrets_choice (lowercase @ uppercase @ digits @ symbols) g
            else Inr (char, g)) = Inr (c, g1) \<and>
          follows_pattern char c \<and> random_used g1 = random_used g \<and> random_seq g1 = random_seq g"
proof -
  have l: "\<exists>c. secrets_choice lowercase g = Inr (c, g\<lparr>secrets_used := Suc (secrets_used g)\<rparr>) \<and>
      c \<in> set lowercase"
    by (rule secrets_choice_ok) (simp add: lowercase_def)
  have u: "\<exists>c. secrets_choice uppercase g = Inr (c, g\<lparr>secrets_used := Suc (secrets_used g)\<rparr>) \<and>
      c \<in> set uppercase"
    by (rule secrets_choice_ok) (simp add: uppercase_def)
  have d: "\<exists>c. secrets_choice digits g = Inr (c, g\<lparr>secrets_used := Suc (secrets_used g)\<rparr>) \<and>
      c \<in> set digits"
    by (rule secrets_choice_ok) (simp add: digits_def)
  have s: "\<exists>c. secrets_choice symbols g = Inr (c, g\<lparr>secrets_used := Suc (secrets_used g)\<rparr>) \<and>
      c \<in> set symbols"
    by (rule secrets_choice_ok) (simp add: symbols_def)
  have a: "\<exists>c. secrets_choice (lowercase @ uppercase @ digits) g =
      Inr (c, g\<lparr>secrets_used := Suc (secrets_used g)\<rparr>) \<and> c \<in> set (lowercase @ uppercase @ digits)"
    by (rule secrets_choice_ok) (simp add: lowercase_def)
  have st: "\<exists>c. secrets_choice (lowercase @ uppercase @ digits @ symbols) g =
      Inr (c, g\<lparr>secrets_used := Suc (secrets_used g)\<rparr>) \<and>
      c \<in> set (lowercase @ uppercase @ digits @ symbols)"
    by (rule secrets_choice_ok) (simp add: lowercase_def)
  consider "char = CHR ''l''" | "char = CHR ''L''" | "char = CHR ''d''" | "char = CHR ''s''"
    | "char = CHR ''a''" | "char = CHR ''*''"
    | "char \<noteq> CHR ''l''" "char \<noteq> CHR ''L''" "char \<noteq> CHR ''d''" "char \<noteq> CHR ''s''"
      "char \<noteq> CHR ''a''" "char \<noteq> CHR ''*''"
    by blast
  then show ?thesis
  proof cases
    case 1 with l show ?thesis by (auto simp: follows_pattern_def)
  next
    case 2 with u show ?thesis by (auto simp: follows_pattern_def)
  next
    case 3 with d show ?thesis by (auto simp: follows_pattern_def)
  next
    case 4 with s show ?thesis by (auto simp: follows_pattern_def)
  next
    case 5 with a show ?thesis by (auto simp: follows_pattern_def simp del: set_append)
  next
    case 6 with st show ?thesis by (auto simp: follows_pattern_def simp del: set_append)
  next
    case 7 then show ?thesis by (simp add: follows_pattern_def)
  qed
qed

lemma custom_pattern_loop_ok:
  "\<exists>out g'. custom_pattern_loop pattern password g = Inr (password @ out, g') \<and>
     list_all2 follows_pattern pattern out \<and>
     random_used g' = random_used g \<and> random_seq g' = random_seq g"
proof (induction pattern arbitrary: password g)
  case Nil
  then show ?case by simp
next
  case (Cons char rest)
  from pattern_step_ok [of char g] obtain c g1 where
    step: "(if char = CHR ''l'' then secrets_choice lowercase g
            else if char = CHR ''L'' then secrets_choice uppercase g
            else if char = CHR ''d'' then secrets_choice digits g
            else if char = CHR ''s'' then secrets_choice symbols g
            else if char = CHR ''a'' then secrets_choice (lowercase @ uppercase @ digits) g
            else if char = CHR ''*'' then secrets_choice (lowercase @ uppercase @ digits @ symbols) g
            else Inr (char, g)) = Inr (c, g1)"
    and c: "follows_pattern char c"
    and g1: "random_used g1 = random_used g" "random_seq g1 = random_seq g"
    by blast
  from Cons.IH [of "password @ [c]" g1] obtain out g' where
    rest: "custom_pattern_loop rest (password @ [c]) g1 = Inr ((password @ [c]) @ out, g')"
      "list_all2 follows_pattern rest out"
      "random_used g' = random_used g1" "random_seq g' = random_seq g1"
    by blast
  have "custom_pattern_loop (char # rest) password g = Inr (password @ c # out, g')"
    by (simp only: custom_pattern_loop.simps step sum.case prod.case rest(1)) simp
  with c rest g1 show ?case
    by (intro exI [of _ "c # out"] exI [of _ g']) simp
qed

subsection \<open>Worked runs\<close>

lemma outcome_Inr:
  "outcome r = Inr (p, a, b) \<Longrightarrow> \<exists>g. r = Inr (p, g) \<and> secrets_used g = a \<and> random_used g = b"
  by (auto simp: outcome_def split: sum.splits)

lemma outcome_Inl: "outcome r = Inl e \<Longrightarrow> r = Inl e"
  by (auto simp: outcome_def split: sum.splits)

lemma run_all_classes_first_draws:
  "outcome (generate_random 4 True True True True False [] (fresh_rng (\<lambda>_. 0) (\<lambda>_. 0))) =
     Inr (''A0!a'', 4, 3)"
  by code_simp

lemma run_all_classes_other_shuffle:
  "outcome (generate_random 4 True True True True False [] (fresh_rng (\<lambda>_. 0) (\<lambda>k. 3 - k))) =
     Inr (''aA0!'', 4, 3)"
  by code_simp

lemma run_digits_all_excluded:
  "outcome (generate_random 4 False False True False False ''0123456789''
      (fresh_rng (\<lambda>_. 0) (\<lambda>_. 0))) =
     Inl (ValueError ''No characters available with the specified criteria'')"
  by code_simp

lemma run_lower_digits_excluded:
  "outcome (generate_random 4 True False True False False ''0123456789''
      (fresh_rng (\<lambda>k. k) (\<lambda>_. 0))) = Inr (''1cda'', 4, 3)"
  by code_simp

lemma run_custom_pattern:
  "outcome (generate_custom_pattern ''LLLLdddd@@'' (fresh_rng (\<lambda>k. 7 * k) (\<lambda>k. 5 * k))) =
     Inr (''AHOV8529@@'', 8, 0)"
  by code_simp

lemma pool_all_classes: "selection_pool True True True True amb [] \<noteq> []"
  by (simp add: selection_pool_def symbols_def)

text \<open>
  Claim C5. Every successful Random generation returns a password of exactly the
  requested length that contains at least one character of each selected class; and a
  request of length 16 with all four classes and no excluded characters always
  succeeds, with a password of 16 characters holding a lowercase letter, an uppercase
  letter, a digit and a symbol.
\<close>

theorem generate_random_length_and_classes:
  "(\<forall>password g'. generate_random len ul uu ud us amb excl g = Inr (password, g') \<longrightarrow>
      int (length password) = len \<and>
      (ul \<longrightarrow> (\<exists>c\<in>set password. c \<in> set lowercase)) \<and>
      (uu \<longrightarrow> (\<exists>c\<in>set password. c \<in> set uppercase)) \<and>
      (ud \<longrightarrow> (\<exists>c\<in>set password. c \<in> set digits)) \<and>
      (us \<longrightarrow> (\<exists>c\<in>set password. c \<in> set symbols))) \<and>
   (\<exists>password g'. generate_random 16 True True True True amb [] g = Inr (password, g') \<and>
      length password = 16 \<and>
      (\<exists>c\<in>set password. c \<in> set lowercase) \<and> (\<exists>c\<in>set password. c \<in> set uppercase) \<and>
      (\<exists>c\<in>set password. c \<in> set digits) \<and> (\<exists>c\<in>set password. c \<in> set symbols))"
proof (intro conjI allI impI)
  fix password g'
  assume run: "generate_random len ul uu ud us amb excl g = Inr (password, g')"
  have len: "4 \<le> len"
    using run generate_random_short [of len ul uu ud us amb excl g] by (cases "len < 4") auto
  have pool: "selection_pool ul uu ud us amb excl \<noteq> []"
    using run generate_random_empty_pool [OF len, of ul uu ud us amb excl g] by auto
  from generate_random_success [OF len pool, of g] run
  show "int (length password) = len"
    "ul \<Longrightarrow> \<exists>c\<in>set password. c \<in> set lowercase"
    "uu \<Longrightarrow> \<exists>c\<in>set password. c \<in> set uppercase"
    "ud \<Longrightarrow> \<exists>c\<in>set password. c \<in> set digits"
    "us \<Longrightarrow> \<exists>c\<in>set password. c \<in> set symbols"
    by auto
next
  have len: "4 \<le> (16::int)" by simp
  from generate_random_success [OF len pool_all_classes, of amb g]
  show "\<exists>password g'. generate_random 16 True True True True amb [] g = Inr (password, g') \<and>
      length password = 16 \<and>
      (\<exists>c\<in>set password. c \<in> set lowercase) \<and> (\<exists>c\<in>set password. c \<in> set uppercase) \<and>
      (\<exists>c\<in>set password. c \<in> set digits) \<and> (\<exists>c\<in>set password. c \<in> set symbols)"
    by auto
qed

theorem generate_random_length_and_classes_witness:
  "\<exists>g'. generate_random 4 True True True True False [] (fresh_rng (\<lambda>_. 0) (\<lambda>_. 0)) =
         Inr (''A0!a'', g') \<and>
       int (length ''A0!a'') = 4 \<and>
       (\<exists>c\<in>set ''A0!a''. c \<in> set lowercase) \<and> (\<exists>c\<in>set ''A0!a''. c \<in> set uppercase) \<and>
       (\<exists>c\<in>set ''A0!a''. c \<in> set digits) \<and> (\<exists>c\<in>set ''A0!a''. c \<in> set symbols)"
proof -
  from outcome_Inr [OF run_all_classes_first_draws] obtain g' where
    run: "generate_random 4 True True True True False [] (fresh_rng (\<lambda>_. 0) (\<lambda>_. 0)) =
            Inr (''A0!a'', g')"
    by blast
  from generate_random_length_and_classes
    [of 4 True True True True False "[]" "fresh_rng (\<lambda>_. 0) (\<lambda>_. 0)"] run
  have "int (length ''A0!a'') = 4 \<and>
       (\<exists>c\<in>set ''A0!a''. c \<in> set lowercase) \<and> (\<exists>c\<in>set ''A0!a''. c \<in> set uppercase) \<and>
       (\<exists>c\<in>set ''A0!a''. c \<in> set digits) \<and> (\<exists>c\<in>set ''A0!a''. c \<in> set symbols)"
    by blast
  with run show ?thesis by blast
qed

text \<open>
  Claim C6. Random generation fails with \<open>ValueError\<close> (the \<open>InvalidParameter\<close>
  condition) when the requested length is below 4 and when the selection pool is empty,
  and in every other case it returns a password. The pool is empty exactly when every
  character of the selected classes is excluded, which includes the case of no class
  selected.
\<close>

theorem generate_random_failure:
  "(len < 4 \<longrightarrow> generate_random len ul uu ud us amb excl g =
       Inl (ValueError ''Password length must be at least 4 characters'')) \<and>
   (4 \<le> len \<and> selection_pool ul uu ud us amb excl = [] \<longrightarrow>
     generate_random len ul uu ud us amb excl g =
       Inl (ValueError ''No characters available with the specified criteria'')) \<and>
   (4 \<le> len \<and> selection_pool ul uu ud us amb excl \<noteq> [] \<longrightarrow>
     (\<exists>password g'. generate_random len ul uu ud us amb excl g = Inr (password, g'))) \<and>
   (selection_pool ul uu ud us amb excl = [] \<longleftrightarrow>
      set (selection_pool ul uu ud us amb []) \<subseteq> set excl) \<and>
   (selection_pool ul uu ud us amb [] = [] \<longleftrightarrow> \<not> ul \<and> \<not> uu \<and> \<not> ud \<and> \<not> us)"
proof (intro conjI impI)
  assume "len < 4"
  then show "generate_random len ul uu ud us amb excl g =
       Inl (ValueError ''Password length must be at least 4 characters'')"
    by (rule generate_random_short)
next
  assume "4 \<le> len \<and> selection_pool ul uu ud us amb excl = []"
  then show "generate_random len ul uu ud us amb excl g =
       Inl (ValueError ''No characters available with the specified criteria'')"
    using generate_random_empty_pool by blast
next
  assume a: "4 \<le> len \<and> selection_pool ul uu ud us amb excl \<noteq> []"
  from generate_random_success [of len ul uu ud us amb excl g] a
  show "\<exists>password g'. generate_random len ul uu ud us amb excl g = Inr (password, g')"
    by blast
next
  show "selection_pool ul uu ud us amb excl = [] \<longleftrightarrow>
      set (selection_pool ul uu ud us amb []) \<subseteq> set excl"
    unfolding selection_pool_def filter_empty_conv by auto
next
  show "selection_pool ul uu ud us amb [] = [] \<longleftrightarrow> \<not> ul \<and> \<not> uu \<and> \<not> ud \<and> \<not> us"
    using class_chars_nonempty(1-3) [of amb] class_chars_nonempty(4)
    by (simp add: selection_pool_def)
qed

theorem generate_random_failure_witness:
  "generate_random 3 True True True True False [] (fresh_rng (\<lambda>_. 0) (\<lambda>_. 0)) =
     Inl (ValueError ''Password length must be at least 4 characters'') \<and>
   generate_random 4 False False False False False [] (fresh_rng (\<lambda>_. 0) (\<lambda>_. 0)) =
     Inl (ValueError ''No characters available with the specified criteria'') \<and>
   (\<exists>password g'. generate_random 16 True True True True False [] (fresh_rng (\<lambda>_. 0) (\<lambda>_. 0)) =
     Inr (password, g'))"
proof -
  have a: "(3::int) < 4" by simp
  have b: "(4::int) \<le> 4 \<and> selection_pool False False False False False [] = []"
    by (simp add: selection_pool_def)
  have c: "(4::int) \<le> 16 \<and> selection_pool True True True True False [] \<noteq> []"
    using pool_all_classes [of False] by simp
  from generate_random_failure [of 3 True True True True False "[]" "fresh_rng (\<lambda>_. 0) (\<lambda>_. 0)"] a
  have 1: "generate_random 3 True True True True False [] (fresh_rng (\<lambda>_. 0) (\<lambda>_. 0)) =
     Inl (ValueError ''Password length must be at least 4 characters'')" by blast
  from generate_random_failure [of 4 False False False False False "[]" "fresh_rng (\<lambda>_. 0) (\<lambda>_. 0)"] b
  have 2: "generate_random 4 False False False False False [] (fresh_rng (\<lambda>_. 0) (\<lambda>_. 0)) =
     Inl (ValueError ''No characters available with the specified criteria'')" by blast
  from generate_random_failure [of 16 True True True True False "[]" "fresh_rng (\<lambda>_. 0) (\<lambda>_. 0)"] c
  have 3: "\<exists>password g'. generate_random 16 True True True True False [] (fresh_rng (\<lambda>_. 0) (\<lambda>_. 0)) =
     Inr (password, g')" by blast
  from 1 2 3 show ?thesis by blast
qed

lemma generate_custom_pattern_ok:
  "\<exists>out g'. generate_custom_pattern pattern g = Inr (out, g') \<and>
     list_all2 follows_pattern pattern out \<and>
     random_used g' = random_used g \<and> random_seq g' = random_seq g"
  using custom_pattern_loop_ok [of pattern "[]" g] by (simp add: generate_custom_pattern_def)

text \<open>
  Claim C7. For every pattern string Custom Pattern generation returns a string of the
  pattern's length in which each position follows the substitution map (and any other
  pattern character is kept as it is); for the pattern \<open>LLLLdddd@@\<close> the result has
  10 characters, the first four uppercase letters, the next four digits and the last
  two exactly \<open>@@\<close>.
\<close>

theorem custom_pattern_follows_map:
  "(\<exists>out g'. generate_custom_pattern pattern g = Inr (out, g') \<and>
      length out = length pattern \<and>
      (\<forall>i<length pattern. follows_pattern (pattern ! i) (out ! i))) \<and>
   (\<exists>out g'. generate_custom_pattern ''LLLLdddd@@'' g = Inr (out, g') \<and>
      length out = 10 \<and>
      (\<forall>c\<in>set (take 4 out). c \<in> set uppercase) \<and>
      (\<forall>c\<in>set (take 4 (drop 4 out)). c \<in> set digits) \<and>
      drop 8 out = ''@@'')"
proof
  from generate_custom_pattern_ok [of pattern g] obtain out g' where
    "generate_custom_pattern pattern g = Inr (out, g')" "list_all2 follows_pattern pattern out"
    by blast
  then show "\<exists>out g'. generate_custom_pattern pattern g = Inr (out, g') \<and>
      length out = length pattern \<and>
      (\<forall>i<length pattern. follows_pattern (pattern ! i) (out ! i))"
    by (auto simp: list_all2_conv_all_nth)
next
  from generate_custom_pattern_ok [of "''LLLLdddd@@''" g] obtain out g' where
    run: "generate_custom_pattern ''LLLLdddd@@'' g = Inr (out, g')"
    and f: "list_all2 follows_pattern ''LLLLdddd@@'' out"
    by blast
  from f obtain a b c d e f' g1 h i j where
    out: "out = [a, b, c, d, e, f', g1, h, i, j]"
    and u: "a \<in> set uppercase" "b \<in> set uppercase" "c \<in> set uppercase" "d \<in> set uppercase"
    and n: "e \<in> set digits" "f' \<in> set digits" "g1 \<in> set digits" "h \<in> set digits"
    and l: "i = CHR ''@''" "j = CHR ''@''"
    by (auto simp: list_all2_Cons1 follows_pattern_def)
  show "\<exists>out g'. generate_custom_pattern ''LLLLdddd@@'' g = Inr (out, g') \<and>
      length out = 10 \<and>
      (\<forall>c\<in>set (take 4 out). c \<in> set uppercase) \<and>
      (\<forall>c\<in>set (take 4 (drop 4 out)). c \<in> set digits) \<and>
      drop 8 out = ''@@''"
    using run u n l unfolding out by (intro exI [of _ "[a, b, c, d, e, f', g1, h, i, j]"] exI [of _ g']) simp
qed

theorem custom_pattern_follows_map_witness:
  "\<exists>g'. generate_custom_pattern ''LLLLdddd@@'' (fresh_rng (\<lambda>k. 7 * k) (\<lambda>k. 5 * k)) =
         Inr (''AHOV8529@@'', g') \<and>
       length ''AHOV8529@@'' = length ''LLLLdddd@@'' \<and>
       follows_pattern (''LLLLdddd@@'' ! 0) (''AHOV8529@@'' ! 0) \<and>
       follows_pattern (''LLLLdddd@@'' ! 9) (''AHOV8529@@'' ! 9)"
proof -
  from outcome_Inr [OF run_custom_pattern] obtain g' where
    run: "generate_custom_pattern ''LLLLdddd@@'' (fresh_rng (\<lambda>k. 7 * k) (\<lambda>k. 5 * k)) =
            Inr (''AHOV8529@@'', g')"
    by blast
  from custom_pattern_follows_map [of "''LLLLdddd@@''" "fresh_rng (\<lambda>k. 7 * k) (\<lambda>k. 5 * k)"] run
  have all: "length ''AHOV8529@@'' = length ''LLLLdddd@@'' \<and>
      (\<forall>i<length ''LLLLdddd@@''. follows_pattern (''LLLLdddd@@'' ! i) (''AHOV8529@@'' ! i))"
    by auto
  then have each: "\<forall>i<length ''LLLLdddd@@''.
      follows_pattern (''LLLLdddd@@'' ! i) (''AHOV8529@@'' ! i)"
    by blast
  from each [rule_format, of 0]
  have first: "follows_pattern (''LLLLdddd@@'' ! 0) (''AHOV8529@@'' ! 0)" by simp
  from each [rule_format, of 9]
  have last: "follows_pattern (''LLLLdddd@@'' ! 9) (''AHOV8529@@'' ! 9)" by simp
  from run all first last show ?thesis by blast
qed

subsection \<open>Exclusions and the two generators\<close>

lemma pool_lower_digits_excluded:
  "selection_pool True False True False False ''0123456789'' \<noteq> []"
  by code_simp

lemma digits_all_listed: "set digits \<subseteq> set ''0123456789''"
  by (simp add: digits_def)

text \<open>
  Claim C10, as amended. In Random generation the excluded characters are removed from
  the pool only after the mandatory character of each selected class has been drawn:
  for every request of length at least 4 whose pool is not empty after the exclusions,
  the password contains at least one character of each selected class, also when
  \<open>exclude_chars\<close> lists every character of that class, so that a character named in
  \<open>exclude_chars\<close> then appears in the password.
\<close>

theorem mandatory_characters_ignore_exclusions:
  "4 \<le> len \<and> selection_pool ul uu ud us amb excl \<noteq> [] \<longrightarrow>
   (\<exists>password g'. generate_random len ul uu ud us amb excl g = Inr (password, g') \<and>
      (ul \<longrightarrow> (\<exists>c\<in>set password. c \<in> set lowercase)) \<and>
      (uu \<longrightarrow> (\<exists>c\<in>set password. c \<in> set uppercase)) \<and>
      (ud \<longrightarrow> (\<exists>c\<in>set password. c \<in> set digits)) \<and>
      (us \<longrightarrow> (\<exists>c\<in>set password. c \<in> set symbols)) \<and>
      (ul \<and> set lowercase \<subseteq> set excl \<longrightarrow> (\<exists>c\<in>set password. c \<in> set excl)) \<and>
      (uu \<and> set uppercase \<subseteq> set excl \<longrightarrow> (\<exists>c\<in>set password. c \<in> set excl)) \<and>
      (ud \<and> set digits \<subseteq> set excl \<longrightarrow> (\<exists>c\<in>set password. c \<in> set excl)) \<and>
      (us \<and> set symbols \<subseteq> set excl \<longrightarrow> (\<exists>c\<in>set password. c \<in> set excl)))"
proof
  assume a: "4 \<le> len \<and> selection_pool ul uu ud us amb excl \<noteq> []"
  then have len: "4 \<le> len" and pool: "selection_pool ul uu ud us amb excl \<noteq> []" by simp_all
  from generate_random_success [OF len pool, of g] obtain password g' where
    run: "generate_random len ul uu ud us amb excl g = Inr (password, g')"
    and l: "ul \<longrightarrow> (\<exists>c\<in>set password. c \<in> set lowercase)"
    and u: "uu \<longrightarrow> (\<exists>c\<in>set password. c \<in> set uppercase)"
    and d: "ud \<longrightarrow> (\<exists>c\<in>set password. c \<in> set digits)"
    and s: "us \<longrightarrow> (\<exists>c\<in>set password. c \<in> set symbols)"
    by blast
  have l': "ul \<and> set lowercase \<subseteq> set excl \<longrightarrow> (\<exists>c\<in>set password. c \<in> set excl)"
    using l by blast
  have u': "uu \<and> set uppercase \<subseteq> set excl \<longrightarrow> (\<exists>c\<in>set password. c \<in> set excl)"
    using u by blast
  have d': "ud \<and> set digits \<subseteq> set excl \<longrightarrow> (\<exists>c\<in>set password. c \<in> set excl)"
    using d by blast
  have s': "us \<and> set symbols \<subseteq> set excl \<longrightarrow> (\<exists>c\<in>set password. c \<in> set excl)"
    using s by blast
  from run l u d s l' u' d' s'
  show "\<exists>password g'. generate_random len ul uu ud us amb excl g = Inr (password, g') \<and>
      (ul \<longrightarrow> (\<exists>c\<in>set password. c \<in> set lowercase)) \<and>
      (uu \<longrightarrow> (\<exists>c\<in>set password. c \<in> set uppercase)) \<and>
      (ud \<longrightarrow> (\<exists>c\<in>set password. c \<in> set digits)) \<and>
      (us \<longrightarrow> (\<exists>c\<in>set password. c \<in> set symbols)) \<and>
      (ul \<and> set lowercase \<subseteq> set excl \<longrightarrow> (\<exists>c\<in>set password. c \<in> set excl)) \<and>
      (uu \<and> set uppercase \<subseteq> set excl \<longrightarrow> (\<exists>c\<in>set password. c \<in> set excl)) \<and>
      (ud \<and> set digits \<subseteq> set excl \<longrightarrow> (\<exists>c\<in>set password. c \<in> set excl)) \<and>
      (us \<and> set symbols \<subseteq> set excl \<longrightarrow> (\<exists>c\<in>set password. c \<in> set excl))"
    by (intro exI [of _ password] exI [of _ g'] conjI)
qed

theorem mandatory_characters_ignore_exclusions_witness:
  "\<exists>g'. generate_random 4 True False True False False ''0123456789''
           (fresh_rng (\<lambda>k. k) (\<lambda>_. 0)) = Inr (''1cda'', g') \<and>
       (\<exists>c\<in>set ''1cda''. c \<in> set digits) \<and>
       (\<exists>c\<in>set ''1cda''. c \<in> set ''0123456789'')"
proof -
  define excl where "excl = ''0123456789''"
  define g0 where "g0 = fresh_rng (\<lambda>k. k) (\<lambda>_. 0)"
  define pw where "pw = ''1cda''"
  from outcome_Inr [OF run_lower_digits_excluded] obtain g' where
    run: "generate_random 4 True False True False False excl g0 = Inr (pw, g')"
    unfolding excl_def g0_def pw_def by blast
  have h: "(4::int) \<le> 4 \<and> selection_pool True False True False False excl \<noteq> []"
    unfolding excl_def using pool_lower_digits_excluded by simp
  have sub: "set digits \<subseteq> set excl"
    unfolding excl_def by (rule digits_all_listed)
  from mandatory_characters_ignore_exclusions [of 4 True False True False False excl g0] h
  obtain password g'' where
    r2: "generate_random 4 True False True False False excl g0 = Inr (password, g'')"
    and d: "\<exists>c\<in>set password. c \<in> set digits"
    and x: "set digits \<subseteq> set excl \<longrightarrow> (\<exists>c\<in>set password. c \<in> set excl)"
    by auto
  from r2 run have "password = pw" by simp
  with d x sub run
  have "\<exists>g'. generate_random 4 True False True False False excl g0 = Inr (pw, g') \<and>
       (\<exists>c\<in>set pw. c \<in> set digits) \<and> (\<exists>c\<in>set pw. c \<in> set excl)"
    by blast
  then show ?thesis unfolding excl_def g0_def pw_def .
qed

text \<open>
  The claim as first stated, for every request of length at least 4 with a class
  selected, fails: with only the digits selected and every digit excluded, the pool is
  empty and the call raises instead of returning a password.
\<close>

theorem only_class_excluded_counterexample:
  "generate_random 4 False False True False False ''0123456789''
     (fresh_rng (\<lambda>_. 0) (\<lambda>_. 0)) =
     Inl (ValueError ''No characters available with the specified criteria'') \<and>
   set digits \<subseteq> set ''0123456789''"
  using outcome_Inl [OF run_digits_all_excluded] digits_all_listed by (rule conjI)

text \<open>
  Claim C9 fails on the code. Two runs of the Random strategy with the same secure
  draws, differing only in the sequence of the \<open>random\<close> module's generator: each makes
  four draws from \<open>secrets\<close> and three from \<open>random\<close> (the shuffle), and the passwords
  differ. The final permutation is drawn from the general-purpose generator.
\<close>

theorem shuffle_draws_from_random_module:
  "outcome (generate_random 4 True True True True False [] (fresh_rng (\<lambda>_. 0) (\<lambda>_. 0))) =
     Inr (''A0!a'', 4, 3) \<and>
   outcome (generate_random 4 True True True True False [] (fresh_rng (\<lambda>_. 0) (\<lambda>k. 3 - k))) =
     Inr (''aA0!'', 4, 3)"
  using run_all_classes_first_draws run_all_classes_other_shuffle by (rule conjI)

end
